theory Spec2Isabelle
  imports Main
begin

section \<open>Data model: the contents of movies.json and bookings.json\<close>

text \<open>
  The server keeps its whole state in two JSON files. \<open>movies.json\<close> is an array of
  movies, each with an array of showtimes, each with an array of seats; \<open>bookings.json\<close>
  is an array of bookings. Identifiers and seat statuses are JavaScript strings, modelled as
  \<open>string\<close>. Field names carry a prefix where the source's name (\<open>id\<close>, \<open>time\<close>,
  \<open>seats\<close>, \<open>status\<close>) is used by more than one kind of object.
\<close>

text \<open>
  A value as \<open>express.json()\<close> and the query parser hand it to a handler. The customer name
  of a request is stored as it was received and is later used as a string by
  GET /api/bookings, so it is kept as the JSON value it is. \<open>JNumber\<close> carries an integer:
  of a number the handlers only ask whether it is zero and whether it is a string.
\<close>

datatype json =
    JNull
  | JBool bool
  | JNumber int
  | JString string
  | JArray "json list"
  | JObject "(string \<times> json) list"

record seat =
  seat_id :: string
  seat_status :: string

record showtime =
  st_id :: string
  st_time :: string
  st_seats :: "seat list"

record movie =
  movie_id :: string
  title :: string
  duration :: nat
  showtimes :: "showtime list"

record booking =
  b_id :: string
  customerName :: json
  movieId :: string
  showtimeId :: string
  seats :: "string list"

record state =
  movies :: "movie list"
  bookings :: "booking list"

text \<open>
  The body of a POST request. A field is \<open>None\<close> when it is absent from the body; for
  \<open>seats\<close> also when it is present but not an array (\<open>Array.isArray\<close> is false). The
  customer name is any JSON value. The showtime id and the seat ids are strings: they are only
  ever compared, with \<open>===\<close>, with the string ids of movies.json, so that a value that is
  not a string behaves as a string that is no id of the catalog does.
\<close>

record body =
  req_customerName :: "json option"
  req_showtimeId :: "string option"
  req_seats :: "string list option"

text \<open>What a handler sends back: the HTTP status and the JSON payload.\<close>

datatype response =
    InvalidRequest                    \<comment> \<open>400 \<open>invalid_request\<close>\<close>
  | ShowtimeNotFound                  \<comment> \<open>404 \<open>showtime_not_found\<close>\<close>
  | SeatsUnavailable "string list"    \<comment> \<open>409 \<open>seats_unavailable\<close> with the seat ids\<close>
  | Booked booking                    \<comment> \<open>201 \<open>booked\<close> with the booking\<close>
  | BookingList "booking list"        \<comment> \<open>200 with the bookings\<close>
  | BookingNotFound                   \<comment> \<open>404 \<open>booking_not_found\<close>\<close>
  | Canceled string                   \<comment> \<open>200 \<open>canceled\<close> with the booking id\<close>
  | HandlerThrew                      \<comment> \<open>the handler throws a TypeError: no answer of its own\<close>

section \<open>JavaScript helpers\<close>

text \<open>
  \<open>xs.find(P)\<close> is \<^const>\<open>List.find\<close>. The handlers mutate the object that \<open>find\<close>
  returned, which is shared with the array it was found in, and write the whole array back:
  \<open>updFirst P f xs\<close> is the array after the first element satisfying \<open>P\<close> has been
  mutated by \<open>f\<close>.
\<close>

fun updFirst :: "('a \<Rightarrow> bool) \<Rightarrow> ('a \<Rightarrow> 'a) \<Rightarrow> 'a list \<Rightarrow> 'a list" where
  "updFirst P f [] = []"
| "updFirst P f (x # xs) = (if P x then f x # xs else x # updFirst P f xs)"

text \<open>\<open>xs.findIndex(P)\<close>, with \<open>None\<close> for -1.\<close>

fun findIndex :: "('a \<Rightarrow> bool) \<Rightarrow> 'a list \<Rightarrow> nat option" where
  "findIndex P [] = None"
| "findIndex P (x # xs) =
     (if P x then Some 0 else map_option Suc (findIndex P xs))"

text \<open>\<open>xs.splice(i, 1)\<close>: the array without its element at index \<open>i\<close>.\<close>

definition splice1 :: "nat \<Rightarrow> 'a list \<Rightarrow> 'a list" where
  "splice1 i xs = take i xs @ drop (Suc i) xs"

text \<open>A non-negative integer as a decimal string, as string concatenation prints it.\<close>

fun string_of_nat :: "nat \<Rightarrow> string" where
  "string_of_nat n =
     (if n < 10 then [char_of (48 + n)]
      else string_of_nat (n div 10) @ [char_of (48 + n mod 10)])"

declare string_of_nat.simps [simp del]

text \<open>\<open>!v\<close> for a field that is a string when present: absent and empty are falsy.\<close>

definition falsy :: "string option \<Rightarrow> bool" where
  "falsy v = (case v of None \<Rightarrow> True | Some s \<Rightarrow> s = [])"

text \<open>
  Truthiness of a JSON value, and \<open>!v\<close> for a field that may be absent: \<open>undefined\<close>,
  \<open>null\<close>, \<open>false\<close>, 0 and the empty string are falsy, every array and object is truthy.
\<close>

fun truthy :: "json \<Rightarrow> bool" where
  "truthy JNull = False"
| "truthy (JBool b) = b"
| "truthy (JNumber n) = (n \<noteq> 0)"
| "truthy (JString s) = (s \<noteq> [])"
| "truthy (JArray xs) = True"
| "truthy (JObject kvs) = True"

definition falsyValue :: "json option \<Rightarrow> bool" where
  "falsyValue v = (case v of None \<Rightarrow> True | Some j \<Rightarrow> \<not> truthy j)"

text \<open>
  \<open>(v || '').toLowerCase\<close>: the string whose method is called, or \<open>None\<close> when the
  value is truthy and not a string, which has no such method, so that the call throws.
\<close>

definition orEmpty :: "json option \<Rightarrow> string option" where
  "orEmpty v =
     (if falsyValue v then Some []
      else case v of Some (JString s) \<Rightarrow> Some s | _ \<Rightarrow> None)"

text \<open>
  \<open>s.toLowerCase()\<close> is a built-in of the JavaScript runtime. On a string of ASCII
  characters it turns A to Z into a to z and leaves every other character. What it returns for
  a string with a character outside ASCII is not fixed here: it is the parameter
  \<open>nonAscii\<close>, which stands for the runtime's function on such strings.
\<close>

definition lowerAscii :: "char \<Rightarrow> char" where
  "lowerAscii c =
     (let n = (of_char c :: nat) in if 65 \<le> n \<and> n \<le> 90 then char_of (n + 32) else c)"

definition isAscii :: "string \<Rightarrow> bool" where
  "isAscii s = list_all (\<lambda>c. (of_char c :: nat) < 128) s"

definition toLowerCase :: "(string \<Rightarrow> string) \<Rightarrow> string \<Rightarrow> string" where
  "toLowerCase nonAscii s = (if isAscii s then map lowerAscii s else nonAscii s)"

text \<open>\<open>s.includes(q)\<close>: \<open>q\<close> occurs in \<open>s\<close> as a contiguous substring.\<close>

fun startsWith :: "string \<Rightarrow> string \<Rightarrow> bool" where
  "startsWith s [] = True"
| "startsWith [] (c # q) = False"
| "startsWith (d # s) (c # q) = (d = c \<and> startsWith s q)"

fun includes_str :: "string \<Rightarrow> string \<Rightarrow> bool" where
  "includes_str [] q = (q = [])"
| "includes_str (d # s) q = (startsWith (d # s) q \<or> includes_str s q)"

section \<open>Startup: ensureFiles\<close>

text \<open>
  The state after \<open>ensureFiles\<close> has run with neither file present: one movie with one
  showtime of 36 available seats A1 .. A36 and no bookings. \<open>t\<close> is the ISO timestamp of
  the moment of seeding.
\<close>

definition seedSeats :: "seat list" where
  "seedSeats =
     map (\<lambda>i. \<lparr>seat_id = ''A'' @ string_of_nat (i + 1), seat_status = ''available''\<rparr>) [0..<36]"

definition ensureFiles :: "string \<Rightarrow> state" where
  "ensureFiles t =
     \<lparr>movies =
        [\<lparr>movie_id = ''m1'', title = ''Avengers: Endgame'', duration = 180,
          showtimes = [\<lparr>st_id = ''s1'', st_time = t, st_seats = seedSeats\<rparr>]\<rparr>],
      bookings = []\<rparr>"

section \<open>POST /api/bookings\<close>

text \<open>
  The loop that finds the showtime: the first movie, in file order, that has a showtime with
  the requested id, together with the first such showtime of that movie.
\<close>

fun findShowtime :: "movie list \<Rightarrow> string \<Rightarrow> (movie \<times> showtime) option" where
  "findShowtime [] sid = None"
| "findShowtime (m # ms) sid =
     (case find (\<lambda>x. st_id x = sid) (showtimes m) of
        Some s \<Rightarrow> Some (m, s)
      | None \<Rightarrow> findShowtime ms sid)"

text \<open>The availability check: the requested seat ids that are missing or not available.\<close>

definition unavailable :: "showtime \<Rightarrow> string list \<Rightarrow> string list" where
  "unavailable showtime seatIds =
     filter (\<lambda>seatId.
        case find (\<lambda>x. seat_id x = seatId) (st_seats showtime) of
          None \<Rightarrow> True
        | Some seat \<Rightarrow> seat_status seat \<noteq> ''available'') seatIds"

text \<open>
  The loop \<open>for (const seatId of seats) { seat = find(..); if (seat) seat.status = v }\<close>
  that both handlers run over a showtime's seat array, with \<open>v\<close> the new status.
\<close>

definition setSeat :: "string \<Rightarrow> seat list \<Rightarrow> string \<Rightarrow> seat list" where
  "setSeat v ss seatId = updFirst (\<lambda>x. seat_id x = seatId) (\<lambda>x. x\<lparr>seat_status := v\<rparr>) ss"

definition markSeats :: "string \<Rightarrow> string list \<Rightarrow> seat list \<Rightarrow> seat list" where
  "markSeats v seatIds ss = foldl (setSeat v) ss seatIds"

text \<open>The showtime array of a movie after the loop has run on its first showtime with the id.\<close>

definition markShowtime :: "string \<Rightarrow> string \<Rightarrow> string list \<Rightarrow> movie \<Rightarrow> movie" where
  "markShowtime v sid seatIds m =
     m\<lparr>showtimes :=
         updFirst (\<lambda>x. st_id x = sid)
           (\<lambda>s. s\<lparr>st_seats := markSeats v seatIds (st_seats s)\<rparr>) (showtimes m)\<rparr>"

definition hasShowtime :: "string \<Rightarrow> movie \<Rightarrow> bool" where
  "hasShowtime sid m = (find (\<lambda>x. st_id x = sid) (showtimes m) \<noteq> None)"

text \<open>
  The handler. \<open>now\<close> is the value of \<open>Date.now()\<close> when the booking is built. Every
  early return leaves both files as they were; the success path writes both.
\<close>

definition post_bookings :: "nat \<Rightarrow> body \<Rightarrow> state \<Rightarrow> response \<times> state" where
  "post_bookings now rq st =
     (if falsyValue (req_customerName rq) \<or> falsy (req_showtimeId rq) \<or> req_seats rq = None
      then (InvalidRequest, st)
      else
        let cn = the (req_customerName rq);
            sid = the (req_showtimeId rq);
            ss = the (req_seats rq)
        in case findShowtime (movies st) sid of
             None \<Rightarrow> (ShowtimeNotFound, st)
           | Some (movie, showtime) \<Rightarrow>
               if unavailable showtime ss \<noteq> [] then (SeatsUnavailable (unavailable showtime ss), st)
               else
                 let movies' = updFirst (hasShowtime sid) (markShowtime ''booked'' sid ss) (movies st);
                     booking = \<lparr>b_id = ''b'' @ string_of_nat now, customerName = cn,
                                movieId = movie_id movie, showtimeId = sid, seats = ss\<rparr>
                 in (Booked booking, \<lparr>movies = movies', bookings = bookings st @ [booking]\<rparr>))"

section \<open>GET /api/bookings\<close>

text \<open>
  The callback of \<open>bookings.filter\<close>, run over the ledger in order, with \<open>q\<close> the
  lower-cased query: \<open>None\<close> when the callback throws at some booking, which ends the
  handler, and the bookings kept otherwise.
\<close>

fun filterByName :: "(string \<Rightarrow> string) \<Rightarrow> string \<Rightarrow> booking list \<Rightarrow> booking list option" where
  "filterByName nonAscii q [] = Some []"
| "filterByName nonAscii q (b # bs) =
     (case orEmpty (Some (customerName b)) of
        None \<Rightarrow> None
      | Some n \<Rightarrow>
          (case filterByName nonAscii q bs of
             None \<Rightarrow> None
           | Some kept \<Rightarrow>
               Some (if includes_str (toLowerCase nonAscii n) q then b # kept else kept)))"

text \<open>
  The handler. \<open>customer\<close> is \<open>req.query.customer\<close>: \<open>None\<close> when the parameter is absent,
  a string when it is given once, an array or an object when it is repeated or written with
  brackets. Nothing is written on any path.
\<close>

definition get_bookings :: "(string \<Rightarrow> string) \<Rightarrow> json option \<Rightarrow> state \<Rightarrow> response \<times> state" where
  "get_bookings nonAscii customer st =
     (case orEmpty customer of
        None \<Rightarrow> (HandlerThrew, st)
      | Some c \<Rightarrow>
          let q = toLowerCase nonAscii c
          in if q = [] then (BookingList (bookings st), st)
             else (case filterByName nonAscii q (bookings st) of
                     None \<Rightarrow> (HandlerThrew, st)
                   | Some kept \<Rightarrow> (BookingList kept, st)))"

section \<open>DELETE /api/bookings/:id\<close>

text \<open>
  The booking removed is the first one with the id. Its seats are freed in the first movie
  with the booking's movie id, in that movie's first showtime with the booking's showtime
  id; movies.json is written when the movie is found, bookings.json always.
\<close>

definition delete_bookings :: "string \<Rightarrow> state \<Rightarrow> response \<times> state" where
  "delete_bookings ident st =
     (case findIndex (\<lambda>b. b_id b = ident) (bookings st) of
        None \<Rightarrow> (BookingNotFound, st)
      | Some idx \<Rightarrow>
          let booking = bookings st ! idx;
              bookings' = splice1 idx (bookings st);
              movies' =
                (case find (\<lambda>mm. movie_id mm = movieId booking) (movies st) of
                   None \<Rightarrow> movies st
                 | Some m \<Rightarrow>
                     (case find (\<lambda>x. st_id x = showtimeId booking) (showtimes m) of
                        None \<Rightarrow> movies st
                      | Some s \<Rightarrow>
                          updFirst (\<lambda>mm. movie_id mm = movieId booking)
                            (markShowtime ''available'' (showtimeId booking) (seats booking))
                            (movies st)))
          in (Canceled (b_id booking), \<lparr>movies = movies', bookings = bookings'\<rparr>))"

section \<open>Sequences of requests\<close>

datatype request = Create nat body | Cancel string

fun step :: "request \<Rightarrow> state \<Rightarrow> state" where
  "step (Create now rq) st = snd (post_bookings now rq st)"
| "step (Cancel ident) st = snd (delete_bookings ident st)"

fun run :: "request list \<Rightarrow> state \<Rightarrow> state" where
  "run [] st = st"
| "run (r # rs) st = run rs (step r st)"

section \<open>Notions used to state the properties\<close>

text \<open>
  The status of seat \<open>x\<close> in a seat array, \<open>None\<close> when no seat has the id. Where
  several seats share an id the first counts, as it does for \<open>find\<close>.
\<close>

definition statusIn :: "seat list \<Rightarrow> string \<Rightarrow> string option" where
  "statusIn ss x = map_option seat_status (find (\<lambda>y. seat_id y = x) ss)"

text \<open>
  The subset of the requested seat ids that are not currently available, ids absent from
  the seat map included, in request order.
\<close>

definition notAvailable :: "showtime \<Rightarrow> string list \<Rightarrow> string list" where
  "notAvailable s S = filter (\<lambda>x. statusIn (st_seats s) x \<noteq> Some ''available'') S"

text \<open>
  The customer name is a string that contains the filter as a substring, once both are in
  lower case.
\<close>

definition matchesCustomer :: "(string \<Rightarrow> string) \<Rightarrow> string \<Rightarrow> booking \<Rightarrow> bool" where
  "matchesCustomer nonAscii q b =
     (\<exists>n ps ss. customerName b = JString n \<and>
        toLowerCase nonAscii n = ps @ toLowerCase nonAscii q @ ss)"

text \<open>
  The status of seat \<open>x\<close> in the showtime that a showtime id resolves to, and the id of the
  movie that showtime was found in.
\<close>

definition statusAt :: "movie list \<Rightarrow> string \<Rightarrow> string \<Rightarrow> string option" where
  "statusAt ms sid x =
     (case findShowtime ms sid of None \<Rightarrow> None | Some (m, s) \<Rightarrow> statusIn (st_seats s) x)"

definition movieIdAt :: "movie list \<Rightarrow> string \<Rightarrow> string option" where
  "movieIdAt ms sid = map_option (\<lambda>(m, s). movie_id m) (findShowtime ms sid)"

text \<open>Two bookings do not claim a common seat of one showtime.\<close>

definition compat :: "booking \<Rightarrow> booking \<Rightarrow> bool" where
  "compat b c = (showtimeId b = showtimeId c \<longrightarrow> set (seats b) \<inter> set (seats c) = {})"

text \<open>
  The invariant of the two files: movie ids are distinct; every booking's showtime resolves,
  in the movie the booking names, and every seat the booking lists exists there and is not
  available; bookings at different positions of the ledger are compatible.
\<close>

definition consistent :: "state \<Rightarrow> bool" where
  "consistent st =
     (distinct (map movie_id (movies st)) \<and>
      (\<forall>b\<in>set (bookings st).
         movieIdAt (movies st) (showtimeId b) = Some (movieId b) \<and>
         (\<forall>x\<in>set (seats b).
            \<exists>v. statusAt (movies st) (showtimeId b) x = Some v \<and> v \<noteq> ''available'')) \<and>
      sorted_wrt compat (bookings st))"

section \<open>Sample requests and states\<close>

definition alice :: body where
  "alice = \<lparr>req_customerName = Some (JString ''Alice''), req_showtimeId = Some ''s1'',
            req_seats = Some [''A1'', ''A2'']\<rparr>"

definition bob :: body where
  "bob = \<lparr>req_customerName = Some (JString ''Bob''), req_showtimeId = Some ''s1'',
          req_seats = Some [''A2'', ''A3'']\<rparr>"

definition carol :: body where
  "carol = \<lparr>req_customerName = Some (JString ''Carol''), req_showtimeId = Some ''s1'',
            req_seats = Some [''A3'', ''A4'']\<rparr>"




text \<open>The state seeded at startup, and that state after Alice's request at clock reading 5.\<close>

definition seeded :: state where
  "seeded = ensureFiles ''2024-01-01T00:00:00.000Z''"

definition afterAlice :: state where
  "afterAlice = snd (post_bookings 5 alice seeded)"

text \<open>The ledger with Alice's and Carol's bookings, made at clock readings 5 and 7.\<close>

definition twoBookings :: state where
  "twoBookings = snd (post_bookings 7 carol afterAlice)"

text \<open>
  A request whose customer name is the number 42, and the ledger with Alice's booking and
  the booking of that request.
\<close>

definition numberName :: body where
  "numberName = \<lparr>req_customerName = Some (JNumber 42), req_showtimeId = Some ''s1'',
                 req_seats = Some [''A3'', ''A4'']\<rparr>"

definition afterNumber :: state where
  "afterNumber = snd (post_bookings 7 numberName afterAlice)"

text \<open>
  Alice's and Carol's requests served at the same clock reading, and the same followed by
  the cancellation of the id that Carol's request returned.
\<close>

definition sameInstant :: "request list" where
  "sameInstant = [Create 1700000000000 alice, Create 1700000000000 carol]"

definition thenCancel :: "request list" where
  "thenCancel = sameInstant @ [Cancel ''b1700000000000'']"


text \<open>A ledger entry whose movie is no longer in movies.json.\<close>

definition drifted :: state where
  "drifted =
     \<lparr>movies = [],
      bookings = [\<lparr>b_id = ''b5'', customerName = JString ''Alice'', movieId = ''m1'',
                   showtimeId = ''s1'', seats = [''A1'', ''A2'']\<rparr>]\<rparr>"

text \<open>
  Two small catalogs that differ only in seat A1: absent from the seat map in the first,
  present and booked in the second.
\<close>

definition catalogWithout :: state where
  "catalogWithout =
     \<lparr>movies = [\<lparr>movie_id = ''m1'', title = ''Avengers: Endgame'', duration = 180,
                 showtimes = [\<lparr>st_id = ''s1'', st_time = ''t'',
                               st_seats = [\<lparr>seat_id = ''A2'', seat_status = ''available''\<rparr>]\<rparr>]\<rparr>],
      bookings = []\<rparr>"

definition catalogBooked :: state where
  "catalogBooked =
     \<lparr>movies = [\<lparr>movie_id = ''m1'', title = ''Avengers: Endgame'', duration = 180,
                 showtimes = [\<lparr>st_id = ''s1'', st_time = ''t'',
                               st_seats = [\<lparr>seat_id = ''A1'', seat_status = ''booked''\<rparr>,
                                           \<lparr>seat_id = ''A2'', seat_status = ''available''\<rparr>]\<rparr>]\<rparr>],
      bookings = []\<rparr>"

section \<open>Facts about the helpers\<close>

lemma updFirst_findIndex:
  "updFirst P f xs = (case findIndex P xs of None \<Rightarrow> xs | Some i \<Rightarrow> xs[i := f (xs ! i)])"
  by (induction xs) (auto split: option.splits)

lemma findIndex_Some: "findIndex P xs = Some i \<Longrightarrow> i < length xs \<and> P (xs ! i) \<and> (\<forall>j<i. \<not> P (xs ! j))"
proof (induction xs arbitrary: i)
  case Nil then show ?case by simp
next
  case (Cons x xs)
  show ?case
  proof (cases "P x")
    case True with Cons.prems show ?thesis by simp
  next
    case False
    with Cons.prems obtain k where k: "findIndex P xs = Some k" "i = Suc k" by auto
    from Cons.IH[OF k(1)] False k(2) show ?thesis by (auto simp: less_Suc_eq_0_disj)
  qed
qed

lemma findIndex_None: "findIndex P xs = None \<longleftrightarrow> (\<forall>x\<in>set xs. \<not> P x)"
  by (induction xs) auto

lemma find_findIndex: "find P xs = map_option (\<lambda>i. xs ! i) (findIndex P xs)"
  by (induction xs) (auto simp: option.map_comp comp_def)

lemma find_updFirst_same:
  "(\<And>x. P x \<Longrightarrow> P (f x)) \<Longrightarrow> find P (updFirst P f xs) = map_option f (find P xs)"
  by (induction xs) auto

lemma find_updFirst_other:
  "(\<And>x. Q (f x) = Q x) \<Longrightarrow> (\<And>x. P x \<Longrightarrow> \<not> Q x) \<Longrightarrow> find Q (updFirst P f xs) = find Q xs"
  by (induction xs) auto

lemma length_updFirst [simp]: "length (updFirst P f xs) = length xs"
  by (induction xs) auto

lemma map_updFirst: "(\<And>x. g (f x) = g x) \<Longrightarrow> map g (updFirst P f xs) = map g xs"
  by (induction xs) auto

lemma updFirst_cong_found:
  "find Q xs = Some x \<Longrightarrow> f x = g x \<Longrightarrow> updFirst Q f xs = updFirst Q g xs"
  by (induction xs) (auto split: if_splits)

text \<open>With distinct keys, the element found by key is the element found by \<open>P\<close>.\<close>

lemma updFirst_cong_first:
  "find P xs = Some x \<Longrightarrow> find Q xs = Some x \<Longrightarrow> distinct (map h xs) \<Longrightarrow> 
   (\<And>y. Q y = (h y = h x)) \<Longrightarrow> updFirst Q f xs = updFirst P f xs"
proof (induction xs)
  case Nil then show ?case by simp
next
  case (Cons a xs)
  show ?case
  proof (cases "P a")
    case True
    with Cons.prems show ?thesis by auto
  next
    case False
    with Cons.prems have px: "find P xs = Some x" by simp
    then have "x \<in> set xs" by (auto simp: find_Some_iff)
    with Cons.prems(3) have "h a \<noteq> h x" by auto
    with Cons.prems(4) have "\<not> Q a" by simp
    with Cons.prems False px Cons.IH show ?thesis by simp
  qed
qed

lemma findIndex_append_last:
  "(\<forall>x\<in>set xs. \<not> P x) \<Longrightarrow> P y \<Longrightarrow> findIndex P (xs @ [y]) = Some (length xs)"
  by (induction xs) auto

lemma splice1_append_last: "splice1 (length xs) (xs @ [y]) = xs"
  by (simp add: splice1_def)

lemma sorted_wrt_splice1: "sorted_wrt P xs \<Longrightarrow> sorted_wrt P (splice1 i xs)"
proof -
  assume a: "sorted_wrt P xs"
  from a have "sorted_wrt P (take i xs @ drop i xs)" by simp
  then have "\<forall>x\<in>set (take i xs). \<forall>y\<in>set (drop i xs). P x y"
    unfolding sorted_wrt_append by blast
  moreover have "set (drop (Suc i) xs) \<subseteq> set (drop i xs)"
    by (simp add: set_drop_subset_set_drop)
  ultimately have "\<forall>x\<in>set (take i xs). \<forall>y\<in>set (drop (Suc i) xs). P x y" by blast
  with a show ?thesis
    by (simp add: splice1_def sorted_wrt_append sorted_wrt_take sorted_wrt_drop)
qed

lemma in_splice1:
  assumes "c \<in> set (splice1 i xs)"
  shows "\<exists>j. j < length xs \<and> j \<noteq> i \<and> xs ! j = c"
proof -
  from assms consider "c \<in> set (take i xs)" | "c \<in> set (drop (Suc i) xs)"
    by (auto simp: splice1_def)
  then show ?thesis
  proof cases
    case 1
    then obtain k where "k < length (take i xs)" "take i xs ! k = c"
      by (auto simp: in_set_conv_nth)
    then have "k < length xs \<and> k \<noteq> i \<and> xs ! k = c" by auto
    then show ?thesis by blast
  next
    case 2
    then obtain k where k: "k < length (drop (Suc i) xs)" "drop (Suc i) xs ! k = c"
      by (auto simp: in_set_conv_nth)
    then have "Suc i + k < length xs \<and> Suc i + k \<noteq> i \<and> xs ! (Suc i + k) = c" by auto
    then show ?thesis by blast
  qed
qed

lemma startsWith_iff: "startsWith s q \<longleftrightarrow> (\<exists>ss. s = q @ ss)"
  by (induction s q rule: startsWith.induct) auto

lemma includes_str_iff: "includes_str s q \<longleftrightarrow> (\<exists>ps ss. s = ps @ q @ ss)"
proof (induction s)
  case Nil
  then show ?case by auto
next
  case (Cons d s)
  show ?case
  proof
    assume "includes_str (d # s) q"
    then consider "startsWith (d # s) q" | "includes_str s q" by auto
    then show "\<exists>ps ss. d # s = ps @ q @ ss"
    proof cases
      case 1
      then obtain ss where "d # s = q @ ss" by (auto simp: startsWith_iff)
      then have "d # s = [] @ q @ ss" by simp
      then show ?thesis by blast
    next
      case 2
      with Cons.IH obtain ps ss where "s = ps @ q @ ss" by blast
      then have "d # s = (d # ps) @ q @ ss" by simp
      then show ?thesis by blast
    qed
  next
    assume "\<exists>ps ss. d # s = ps @ q @ ss"
    then obtain ps ss where e: "d # s = ps @ q @ ss" by blast
    show "includes_str (d # s) q"
    proof (cases ps)
      case Nil
      with e have "startsWith (d # s) q" by (auto simp: startsWith_iff)
      then show ?thesis by simp
    next
      case (Cons p ps')
      with e have "s = ps' @ q @ ss" by simp
      with Cons.IH have "includes_str s q" by blast
      then show ?thesis by simp
    qed
  qed
qed

lemma toLowerCase_ascii: "isAscii s \<Longrightarrow> toLowerCase nonAscii s = map lowerAscii s"
  by (simp add: toLowerCase_def)

lemma toLowerCase_ascii_Nil: "isAscii s \<Longrightarrow> toLowerCase nonAscii s = [] \<longleftrightarrow> s = []"
  by (simp add: toLowerCase_def)

lemma toLowerCase_Nil [simp]: "toLowerCase nonAscii [] = []"
  by (simp add: toLowerCase_def isAscii_def)

lemma orEmpty_string [simp]: "orEmpty (Some (JString n)) = Some n"
  by (simp add: orEmpty_def falsyValue_def)

lemma orEmpty_None_iff:
  "orEmpty v = None \<longleftrightarrow> (\<exists>j. v = Some j \<and> truthy j \<and> (\<forall>n. j \<noteq> JString n))"
  by (cases v; cases "the v") (auto simp: orEmpty_def falsyValue_def)

section \<open>Facts about seat arrays and showtime lookup\<close>

lemma findShowtime_Some:
  "findShowtime ms sid = Some (m, s) \<Longrightarrow>
     find (hasShowtime sid) ms = Some m \<and> find (\<lambda>x. st_id x = sid) (showtimes m) = Some s"
  by (induction ms) (auto simp: hasShowtime_def split: option.splits)

lemma findShowtime_None:
  "findShowtime ms sid = None \<longleftrightarrow> find (hasShowtime sid) ms = None"
  by (induction ms) (auto simp: hasShowtime_def split: option.splits)

lemma statusIn_setSeat:
  "statusIn (setSeat v ss y) x = (if x = y \<and> statusIn ss x \<noteq> None then Some v else statusIn ss x)"
proof (cases "x = y")
  case True
  then show ?thesis
    by (simp add: statusIn_def setSeat_def find_updFirst_same option.map_comp comp_def)
next
  case False
  then have "find (\<lambda>z. seat_id z = x) (setSeat v ss y) = find (\<lambda>z. seat_id z = x) ss"
    unfolding setSeat_def by (intro find_updFirst_other) auto
  with False show ?thesis
    by (simp add: statusIn_def)
qed

lemma statusIn_markSeats:
  "statusIn (markSeats v S ss) x = (if x \<in> set S \<and> statusIn ss x \<noteq> None then Some v else statusIn ss x)"
  unfolding markSeats_def
  by (induction S arbitrary: ss) (auto simp: statusIn_setSeat)



lemma setSeat_missing:
  "find (\<lambda>z. seat_id z = y) ss = None \<Longrightarrow> setSeat v ss y = ss"
  by (simp add: setSeat_def updFirst_findIndex find_findIndex)

lemma find_setSeat_None:
  "find (\<lambda>z. seat_id z = x) (setSeat v ss y) = None \<longleftrightarrow> find (\<lambda>z. seat_id z = x) ss = None"
  using statusIn_setSeat[of v ss y x] by (auto simp: statusIn_def split: if_splits)

lemma markSeats_skip_missing:
  "markSeats v S ss = markSeats v (filter (\<lambda>x. find (\<lambda>z. seat_id z = x) ss \<noteq> None) S) ss"
proof (induction S arbitrary: ss)
  case Nil
  then show ?case by simp
next
  case (Cons y S)
  have step: "markSeats v (y # S) ss = markSeats v S (setSeat v ss y)"
    by (simp add: markSeats_def)
  have same: "filter (\<lambda>x. find (\<lambda>z. seat_id z = x) (setSeat v ss y) \<noteq> None) S =
              filter (\<lambda>x. find (\<lambda>z. seat_id z = x) ss \<noteq> None) S"
    by (simp add: find_setSeat_None)
  show ?case
  proof (cases "find (\<lambda>z. seat_id z = y) ss")
    case None
    with Cons.IH[of ss] show ?thesis
      by (simp add: step setSeat_missing)
  next
    case (Some a)
    with Cons.IH[of "setSeat v ss y"] same show ?thesis
      by (simp add: markSeats_def)
  qed
qed

lemma find_markShowtime:
  "find (\<lambda>x. st_id x = sid') (showtimes (markShowtime v sid S m)) =
     (if sid' = sid
      then map_option (\<lambda>s. s\<lparr>st_seats := markSeats v S (st_seats s)\<rparr>)
             (find (\<lambda>x. st_id x = sid) (showtimes m))
      else find (\<lambda>x. st_id x = sid') (showtimes m))"
proof (cases "sid' = sid")
  case True
  then show ?thesis by (simp add: markShowtime_def find_updFirst_same)
next
  case False
  then have "find (\<lambda>x. st_id x = sid')
               (updFirst (\<lambda>x. st_id x = sid)
                  (\<lambda>s. s\<lparr>st_seats := markSeats v S (st_seats s)\<rparr>) (showtimes m)) =
             find (\<lambda>x. st_id x = sid') (showtimes m)"
    by (intro find_updFirst_other) auto
  with False show ?thesis by (simp add: markShowtime_def)
qed

lemma hasShowtime_markShowtime [simp]:
  "hasShowtime sid' (markShowtime v sid S m) = hasShowtime sid' m"
  by (simp add: hasShowtime_def find_markShowtime)

lemma movie_id_markShowtime [simp]: "movie_id (markShowtime v sid S m) = movie_id m"
  by (simp add: markShowtime_def)

lemma statusAt_resolved:
  "findShowtime ms sid = Some (m, s) \<Longrightarrow> statusAt ms sid x = statusIn (st_seats s) x"
  by (simp add: statusAt_def)

text \<open>
  What the marking loop does to the status of every seat of every showtime: the listed seats
  that exist in the first showtime with the id get the new status, nothing else changes.
\<close>

lemma statusAt_book:
  "statusAt (updFirst (hasShowtime sid) (markShowtime v sid S) ms) sid' x =
     (if sid' = sid \<and> x \<in> set S \<and> statusAt ms sid x \<noteq> None then Some v
      else statusAt ms sid' x)"
proof (induction ms)
  case Nil
  then show ?case by (simp add: statusAt_def)
next
  case (Cons m ms)
  show ?case
  proof (cases "hasShowtime sid m")
    case True
    then obtain s0 where s0: "find (\<lambda>x. st_id x = sid) (showtimes m) = Some s0"
      by (auto simp: hasShowtime_def)
    show ?thesis
    proof (cases "sid' = sid")
      case True
      with \<open>hasShowtime sid m\<close> s0 show ?thesis
        by (simp add: statusAt_def find_markShowtime statusIn_markSeats)
    next
      case False
      with \<open>hasShowtime sid m\<close> show ?thesis
        by (simp add: statusAt_def find_markShowtime split: option.splits)
    qed
  next
    case False
    then have n: "find (\<lambda>x. st_id x = sid) (showtimes m) = None"
      by (simp add: hasShowtime_def)
    show ?thesis
    proof (cases "find (\<lambda>x. st_id x = sid') (showtimes m)")
      case None
      with False n Cons.IH show ?thesis by (simp add: statusAt_def)
    next
      case (Some s)
      with n have "sid' \<noteq> sid" by auto
      with False Some show ?thesis by (simp add: statusAt_def)
    qed
  qed
qed

lemma movieIdAt_book:
  "movieIdAt (updFirst (hasShowtime sid) (markShowtime v sid S) ms) sid' = movieIdAt ms sid'"
proof (induction ms)
  case Nil
  then show ?case by simp
next
  case (Cons m ms)
  show ?case
  proof (cases "hasShowtime sid m")
    case True
    then show ?thesis
      by (cases "find (\<lambda>x. st_id x = sid') (showtimes m)")
         (auto simp: movieIdAt_def find_markShowtime hasShowtime_def)
  next
    case False
    with Cons.IH show ?thesis
      by (cases "find (\<lambda>x. st_id x = sid') (showtimes m)") (auto simp: movieIdAt_def)
  qed
qed

lemma map_movie_id_book:
  "map movie_id (updFirst P (markShowtime v sid S) ms) = map movie_id ms"
  by (rule map_updFirst) simp

lemma find_by_movie_id:
  assumes "findShowtime ms sid = Some (m, s)" "distinct (map movie_id ms)"
  shows "find (\<lambda>mm. movie_id mm = movie_id m) ms = Some m"
  using assms
proof (induction ms)
  case Nil then show ?case by simp
next
  case (Cons a ms)
  show ?case
  proof (cases "find (\<lambda>x. st_id x = sid) (showtimes a)")
    case (Some s')
    with Cons.prems show ?thesis by simp
  next
    case None
    with Cons.prems have f: "findShowtime ms sid = Some (m, s)" by simp
    then have "find (hasShowtime sid) ms = Some m" by (simp add: findShowtime_Some)
    then have "m \<in> set ms" by (auto simp: find_Some_iff)
    with Cons.prems(2) have "movie_id a \<noteq> movie_id m" by auto
    with Cons.IH[OF f] Cons.prems(2) show ?thesis by simp
  qed
qed

lemma unavailable_notAvailable: "unavailable s S = notAvailable s S"
  unfolding unavailable_def notAvailable_def statusIn_def
  by (rule filter_cong) (auto split: option.splits)

lemma unavailable_Nil:
  "unavailable s S = [] \<longleftrightarrow> (\<forall>x\<in>set S. statusIn (st_seats s) x = Some ''available'')"
  by (auto simp: unavailable_def statusIn_def filter_empty_conv split: option.splits)

section \<open>The outcomes of POST /api/bookings and DELETE /api/bookings/:id\<close>

lemma post_success:
  assumes "fst (post_bookings now rq st) = Booked b"
  shows "\<exists>m s. findShowtime (movies st) (showtimeId b) = Some (m, s) \<and>
           unavailable s (seats b) = [] \<and> movieId b = movie_id m \<and>
           req_showtimeId rq = Some (showtimeId b) \<and> req_seats rq = Some (seats b) \<and>
           req_customerName rq = Some (customerName b) \<and> b_id b = ''b'' @ string_of_nat now \<and>
           snd (post_bookings now rq st) =
             \<lparr>movies = updFirst (hasShowtime (showtimeId b))
                          (markShowtime ''booked'' (showtimeId b) (seats b)) (movies st),
              bookings = bookings st @ [b]\<rparr>"
  using assms
  by (auto simp: post_bookings_def Let_def falsy_def falsyValue_def split: option.splits prod.splits if_splits)

lemma post_cases:
  "(\<exists>b. fst (post_bookings now rq st) = Booked b) \<or> snd (post_bookings now rq st) = st"
  by (simp add: post_bookings_def Let_def split: option.splits prod.splits)

lemma post_booked_iff:
  "(\<exists>b. fst (post_bookings now rq st) = Booked b) \<longleftrightarrow>
     \<not> falsyValue (req_customerName rq) \<and> \<not> falsy (req_showtimeId rq) \<and>
     (\<exists>S m s. req_seats rq = Some S \<and>
        findShowtime (movies st) (the (req_showtimeId rq)) = Some (m, s) \<and> unavailable s S = [])"
  by (auto simp: post_bookings_def Let_def split: option.splits prod.splits)

lemma delete_not_found:
  "findIndex (\<lambda>b. b_id b = ident) (bookings st) = None \<Longrightarrow>
     delete_bookings ident st = (BookingNotFound, st)"
  by (simp add: delete_bookings_def)

section \<open>Atomicity of a rejected booking\<close>

text \<open>
  C2. When POST /api/bookings answers 409 \<open>seats_unavailable\<close>, neither file has
  changed: every seat status and the ledger are as before the request.
\<close>

theorem unavailable_no_effect:
  "fst (post_bookings now rq st) = SeatsUnavailable u \<Longrightarrow> snd (post_bookings now rq st) = st"
  by (simp add: post_bookings_def Let_def split: option.splits prod.splits if_splits)

text \<open>Bob asks for A2 and A3 after Alice has booked A1 and A2.\<close>

theorem unavailable_no_effect_witness:
  "fst (post_bookings 6 bob afterAlice) = SeatsUnavailable [''A2''] \<and>
   snd (post_bookings 6 bob afterAlice) = afterAlice"
proof -
  have h: "fst (post_bookings 6 bob afterAlice) = SeatsUnavailable [''A2'']"
    by code_simp
  from unavailable_no_effect [OF h] h show ?thesis by simp
qed

section \<open>The availability check\<close>

text \<open>
  C3. For a request that passes validation and whose showtime resolves, the answer is 409
  \<open>seats_unavailable\<close> with exactly the requested seat ids that are not available (ids
  absent from the seat map included) when there is such a seat id, and 201 with the new
  booking otherwise.
\<close>

theorem create_reports_unavailable_subset:
  assumes "truthy cn" and "sid \<noteq> []" and "findShowtime (movies st) sid = Some (m, s)"
  shows "fst (post_bookings now
                \<lparr>req_customerName = Some cn, req_showtimeId = Some sid, req_seats = Some S\<rparr> st) =
     (if notAvailable s S \<noteq> [] then SeatsUnavailable (notAvailable s S)
      else Booked \<lparr>b_id = ''b'' @ string_of_nat now, customerName = cn,
                   movieId = movie_id m, showtimeId = sid, seats = S\<rparr>)"
  using assms by (simp add: post_bookings_def Let_def falsy_def falsyValue_def unavailable_notAvailable)

theorem create_reports_unavailable_subset_witness:
  "fst (post_bookings 6 bob afterAlice) = SeatsUnavailable [''A2''] \<and>
   fst (post_bookings 7 carol afterAlice) =
     Booked \<lparr>b_id = ''b7'', customerName = JString ''Carol'', movieId = ''m1'',
             showtimeId = ''s1'', seats = [''A3'', ''A4'']\<rparr>"
proof -
  let ?m = "hd (movies afterAlice)"
  let ?s = "hd (showtimes ?m)"
  have f: "findShowtime (movies afterAlice) ''s1'' = Some (?m, ?s)" by code_simp
  have n: "truthy (JString ''Bob'')" "truthy (JString ''Carol'')" "''s1'' \<noteq> []" by simp_all
  have u1: "notAvailable ?s [''A2'', ''A3''] = [''A2'']" by code_simp
  have u2: "notAvailable ?s [''A3'', ''A4''] = []" by code_simp
  have i: "movie_id ?m = ''m1''" "string_of_nat 7 = ''7''" by code_simp+
  from create_reports_unavailable_subset [OF n(1) n(3) f, of 6 "[''A2'', ''A3'']"] u1
  have "fst (post_bookings 6 bob afterAlice) = SeatsUnavailable [''A2'']"
    by (simp add: bob_def)
  moreover
  from create_reports_unavailable_subset [OF n(2) n(3) f, of 7 "[''A3'', ''A4'']"] u2 i
  have "fst (post_bookings 7 carol afterAlice) =
     Booked \<lparr>b_id = ''b7'', customerName = JString ''Carol'', movieId = ''m1'',
             showtimeId = ''s1'', seats = [''A3'', ''A4'']\<rparr>"
    by (simp add: carol_def)
  ultimately show ?thesis by simp
qed

section \<open>Request validation\<close>




section \<open>Unknown seat ids\<close>

text \<open>
  The same request for A1 and A2 is answered identically by a catalog in which seat A1 does
  not exist and by one in which A1 exists and is booked: 409 \<open>seats_unavailable\<close> with
  the list [A1]. Nothing in the answer tells an unknown seat id from a booked seat.
\<close>

theorem unknown_seat_indistinguishable:
  "statusAt (movies catalogWithout) ''s1'' ''A1'' = None \<and>
   statusAt (movies catalogBooked) ''s1'' ''A1'' = Some ''booked'' \<and>
   fst (post_bookings 5 alice catalogWithout) = SeatsUnavailable [''A1''] \<and>
   fst (post_bookings 5 alice catalogBooked) = SeatsUnavailable [''A1'']"
proof -
  have "statusAt (movies catalogWithout) ''s1'' ''A1'' = None" by code_simp
  moreover have "statusAt (movies catalogBooked) ''s1'' ''A1'' = Some ''booked''" by code_simp
  moreover have "fst (post_bookings 5 alice catalogWithout) = SeatsUnavailable [''A1'']"
    by code_simp
  moreover have "fst (post_bookings 5 alice catalogBooked) = SeatsUnavailable [''A1'']"
    by code_simp
  ultimately show ?thesis by simp
qed

text \<open>
  C6, amended. A valid request whose showtime resolves and that lists a seat id absent from
  the seat map is answered 409 \<open>seats_unavailable\<close>, and the absent id is in the reported
  list; a listed seat that exists and is booked is answered in the same way, in the same list.
\<close>

theorem unknown_seat_reported_unavailable:
  assumes "truthy cn" and "sid \<noteq> []" and "findShowtime (movies st) sid = Some (m, s)"
    and "x \<in> set S"
    and "statusIn (st_seats s) x = None \<or> statusIn (st_seats s) x = Some ''booked''"
  shows "fst (post_bookings now
                \<lparr>req_customerName = Some cn, req_showtimeId = Some sid, req_seats = Some S\<rparr> st) =
           SeatsUnavailable (notAvailable s S) \<and>
         x \<in> set (notAvailable s S)"
proof -
  from assms(4,5) have x: "x \<in> set (notAvailable s S)"
    by (auto simp: notAvailable_def)
  then have "unavailable s S \<noteq> []"
    by (auto simp: unavailable_notAvailable)
  with assms(1-3) x show ?thesis
    by (simp add: post_bookings_def Let_def falsy_def falsyValue_def unavailable_notAvailable)
qed

text \<open>After Alice's booking of A1 and A2, a request for A1 (booked) and Z9 (no such seat).\<close>

theorem unknown_seat_reported_unavailable_witness:
  "statusIn (st_seats (hd (showtimes (hd (movies afterAlice))))) ''Z9'' = None \<and>
   fst (post_bookings 6
          \<lparr>req_customerName = Some (JString ''Bob''), req_showtimeId = Some ''s1'',
            req_seats = Some [''A1'', ''Z9'', ''A3'']\<rparr> afterAlice) =
     SeatsUnavailable [''A1'', ''Z9'']"
proof -
  let ?m = "hd (movies afterAlice)"
  let ?s = "hd (showtimes ?m)"
  have f: "findShowtime (movies afterAlice) ''s1'' = Some (?m, ?s)" by code_simp
  have n: "truthy (JString ''Bob'')" "''s1'' \<noteq> []" by simp_all
  have z: "statusIn (st_seats ?s) ''Z9'' = None" by code_simp
  then have z': "statusIn (st_seats ?s) ''Z9'' = None \<or> statusIn (st_seats ?s) ''Z9'' = Some ''booked''"
    by simp
  have i: "''Z9'' \<in> set [''A1'', ''Z9'', ''A3'']" by simp
  have u: "notAvailable ?s [''A1'', ''Z9'', ''A3''] = [''A1'', ''Z9'']" by code_simp
  from unknown_seat_reported_unavailable [OF n f i z', of 6] u z show ?thesis by simp
qed

section \<open>Listing bookings\<close>

text \<open>No path of GET /api/bookings writes a file.\<close>

lemma get_bookings_state: "snd (get_bookings nonAscii customer st) = st"
  by (simp add: get_bookings_def Let_def split: option.splits)

text \<open>The filter throws exactly when some stored customer name is truthy and not a string.\<close>

lemma filterByName_None_orEmpty:
  "filterByName nonAscii q bs = None \<longleftrightarrow>
     (\<exists>b\<in>set bs. orEmpty (Some (customerName b)) = None)"
  by (induction bs) (auto split: option.splits)

lemma filterByName_None_iff:
  "filterByName nonAscii q bs = None \<longleftrightarrow>
     (\<exists>b\<in>set bs. truthy (customerName b) \<and> (\<forall>n. customerName b \<noteq> JString n))"
  by (simp add: filterByName_None_orEmpty orEmpty_None_iff)

lemma filterByName_strings:
  assumes "\<forall>b\<in>set bs. \<exists>n. customerName b = JString n"
  shows "filterByName nonAscii q bs =
     Some (filter (\<lambda>b. \<exists>n. customerName b = JString n \<and>
                           includes_str (toLowerCase nonAscii n) q) bs)"
  using assms by (induction bs) auto

text \<open>
  When the query is absent or a string and every stored customer name is a string, the
  answer is the whole ledger for an absent query or one whose lower case is empty, and
  otherwise the bookings, in ledger order, whose name contains the query, both in lower case.
\<close>

lemma list_bookings_filter:
  assumes "\<forall>b\<in>set (bookings st). \<exists>n. customerName b = JString n"
  shows "get_bookings nonAscii None st = (BookingList (bookings st), st)"
    and "get_bookings nonAscii (Some (JString c)) st =
      (BookingList
         (if toLowerCase nonAscii c = [] then bookings st
          else filter (matchesCustomer nonAscii c) (bookings st)),
       st)"
proof -
  show "get_bookings nonAscii None st = (BookingList (bookings st), st)"
    by (simp add: get_bookings_def orEmpty_def falsyValue_def)
  have "(\<lambda>b. \<exists>n. customerName b = JString n \<and>
               includes_str (toLowerCase nonAscii n) (toLowerCase nonAscii c)) =
        matchesCustomer nonAscii c"
    by (simp add: matchesCustomer_def [abs_def] includes_str_iff)
  with filterByName_strings [OF assms, of nonAscii "toLowerCase nonAscii c"]
  show "get_bookings nonAscii (Some (JString c)) st =
      (BookingList
         (if toLowerCase nonAscii c = [] then bookings st
          else filter (matchesCustomer nonAscii c) (bookings st)),
       st)"
    by (simp add: get_bookings_def Let_def)
qed

text \<open>The ledger with Alice's and Carol's bookings, asked for LIC.\<close>

lemma list_bookings_example:
  "fst (get_bookings nonAscii (Some (JString ''LIC'')) twoBookings) =
     BookingList [\<lparr>b_id = ''b5'', customerName = JString ''Alice'', movieId = ''m1'',
       showtimeId = ''s1'', seats = [''A1'', ''A2'']\<rparr>]"
  by code_simp

text \<open>
  C8. GET /api/bookings with a non-empty filter is to answer with the bookings whose customer
  name contains the filter, letter case ignored. POST /api/bookings takes the number 42 for
  a customer name, as it is truthy, and stores it. With that booking in the ledger after
  Alice's, the query \<open>customer=ali\<close> does not answer with Alice's booking: the handler
  throws at the call of \<open>toLowerCase\<close> on 42, whatever the runtime's lower-casing is.
  A query given twice arrives as an array and makes the handler throw on any ledger.
\<close>

theorem listing_throws_on_non_string_name:
  "fst (post_bookings 7 numberName afterAlice) =
     Booked \<lparr>b_id = ''b7'', customerName = JNumber 42, movieId = ''m1'',
             showtimeId = ''s1'', seats = [''A3'', ''A4'']\<rparr> \<and>
   map customerName (bookings afterNumber) = [JString ''Alice'', JNumber 42] \<and>
   fst (get_bookings nonAscii (Some (JString ''ali'')) afterNumber) = HandlerThrew \<and>
   fst (get_bookings nonAscii (Some (JArray [JString ''ali'', JString ''bob''])) afterAlice) =
     HandlerThrew"
proof -
  have "fst (post_bookings 7 numberName afterAlice) =
     Booked \<lparr>b_id = ''b7'', customerName = JNumber 42, movieId = ''m1'',
             showtimeId = ''s1'', seats = [''A3'', ''A4'']\<rparr>"
    by code_simp
  moreover have "map customerName (bookings afterNumber) = [JString ''Alice'', JNumber 42]"
    by code_simp
  moreover have "fst (get_bookings nonAscii (Some (JString ''ali'')) afterNumber) = HandlerThrew"
    by code_simp
  moreover have
    "fst (get_bookings nonAscii (Some (JArray [JString ''ali'', JString ''bob''])) afterAlice) =
       HandlerThrew"
    by code_simp
  ultimately show ?thesis by simp
qed

section \<open>Booking ids\<close>

text \<open>
  Decimal printing is injective, so two bookings have the same id exactly when they were
  built at the same clock reading.
\<close>

lemma digit_inj:
  assumes "a < 10" "b < 10" "char_of (48 + a) = (char_of (48 + b) :: char)"
  shows "a = (b::nat)"
proof -
  from assms(3) have "of_char (char_of (48 + a) :: char) = (of_char (char_of (48 + b) :: char) :: nat)"
    by simp
  with assms(1,2) show ?thesis by (simp add: of_char_of)
qed

lemma string_of_nat_last: "last (string_of_nat n) = char_of (48 + n mod 10)"
  by (subst string_of_nat.simps) simp

lemma string_of_nat_butlast:
  "butlast (string_of_nat n) = (if n < 10 then [] else string_of_nat (n div 10))"
  by (subst string_of_nat.simps) simp

lemma string_of_nat_not_Nil: "string_of_nat n \<noteq> []"
  by (subst string_of_nat.simps) simp

lemma string_of_nat_inj: "string_of_nat m = string_of_nat n \<Longrightarrow> m = n"
proof (induction m arbitrary: n rule: less_induct)
  case (less m)
  from less.prems have "last (string_of_nat m) = last (string_of_nat n)" by simp
  then have "char_of (48 + m mod 10) = (char_of (48 + n mod 10) :: char)"
    by (simp add: string_of_nat_last)
  then have d: "m mod 10 = n mod 10"
    by (intro digit_inj) simp_all
  from less.prems have b: "butlast (string_of_nat m) = butlast (string_of_nat n)" by simp
  show ?case
  proof (cases "m < 10")
    case True
    with b have "n < 10"
      using string_of_nat_not_Nil[of "n div 10"]
      by (auto simp: string_of_nat_butlast split: if_splits)
    with True d show ?thesis by simp
  next
    case False
    with b have n: "\<not> n < 10"
      using string_of_nat_not_Nil[of "m div 10"]
      by (auto simp: string_of_nat_butlast split: if_splits)
    with False b have "string_of_nat (m div 10) = string_of_nat (n div 10)"
      by (simp add: string_of_nat_butlast)
    moreover from False have "m div 10 < m" by simp
    ultimately have "m div 10 = n div 10" by (rule less.IH[rotated])
    with d show ?thesis by (metis div_mult_mod_eq)
  qed
qed

lemma booking_id_eq_iff_same_clock:
  assumes "fst (post_bookings now1 rq1 st1) = Booked b1"
    and "fst (post_bookings now2 rq2 st2) = Booked b2"
  shows "b_id b1 = b_id b2 \<longleftrightarrow> now1 = now2"
proof -
  from post_success[OF assms(1)] have "b_id b1 = ''b'' @ string_of_nat now1" by blast
  moreover from post_success[OF assms(2)] have "b_id b2 = ''b'' @ string_of_nat now2" by blast
  ultimately show ?thesis by (auto dest: string_of_nat_inj)
qed

text \<open>The decimal string of the clock reading used below.\<close>

lemma digit_chars:
  "char_of (48::nat) = CHR ''0''" "char_of (49::nat) = CHR ''1''" "char_of (55::nat) = CHR ''7''"
  by code_simp+

lemma string_of_clock: "string_of_nat 1700000000000 = ''1700000000000''"
  by (simp add: string_of_nat.simps digit_chars)

text \<open>The ledger after Alice's and Carol's requests, both served at clock reading \<open>now\<close>.\<close>

lemma same_instant_ledger:
  "bookings (run [Create now alice, Create now carol] seeded) =
    [\<lparr>b_id = ''b'' @ string_of_nat now, customerName = JString ''Alice'', movieId = ''m1'',
      showtimeId = ''s1'', seats = [''A1'', ''A2'']\<rparr>,
     \<lparr>b_id = ''b'' @ string_of_nat now, customerName = JString ''Carol'', movieId = ''m1'',
      showtimeId = ''s1'', seats = [''A3'', ''A4'']\<rparr>]"
  by code_simp

text \<open>
  C9. The id of a booking is the letter b followed by \<open>Date.now()\<close>. Two requests served
  at the same clock reading get the same id: here Alice's and Carol's bookings, both in the
  ledger, both with id b1700000000000.
\<close>

theorem booking_ids_collide:
  "length (bookings (run sameInstant seeded)) = 2 \<and>
   customerName (bookings (run sameInstant seeded) ! 0) = JString ''Alice'' \<and>
   customerName (bookings (run sameInstant seeded) ! 1) = JString ''Carol'' \<and>
   b_id (bookings (run sameInstant seeded) ! 0) = ''b1700000000000'' \<and>
   b_id (bookings (run sameInstant seeded) ! 1) = ''b1700000000000''"
  using same_instant_ledger [of 1700000000000] string_of_clock
  by (simp add: sameInstant_def)

section \<open>Cancelling a booking whose showtime no longer resolves\<close>

text \<open>
  Whenever the id finds an entry in the ledger, DELETE /api/bookings/:id answers 200 and
  the first entry with the id is removed, whatever the catalog holds. If that entry's movie
  or showtime is not found, movies.json is left as it is; if they are found, the seats freed
  are those of the entry's seat ids that the showtime's seat map has, the others being
  skipped.
\<close>

lemma cancel_first_match:
  assumes "findIndex (\<lambda>b. b_id b = ident) (bookings st) = Some idx"
  shows "fst (delete_bookings ident st) = Canceled ident \<and>
     bookings (snd (delete_bookings ident st)) = splice1 idx (bookings st) \<and>
     (case find (\<lambda>mm. movie_id mm = movieId (bookings st ! idx)) (movies st) of
        None \<Rightarrow> movies (snd (delete_bookings ident st)) = movies st
      | Some m \<Rightarrow>
         (case find (\<lambda>x. st_id x = showtimeId (bookings st ! idx)) (showtimes m) of
            None \<Rightarrow> movies (snd (delete_bookings ident st)) = movies st
          | Some s \<Rightarrow>
              movies (snd (delete_bookings ident st)) =
                updFirst (\<lambda>mm. movie_id mm = movieId (bookings st ! idx))
                  (markShowtime ''available'' (showtimeId (bookings st ! idx))
                     (filter (\<lambda>x. find (\<lambda>z. seat_id z = x) (st_seats s) \<noteq> None)
                        (seats (bookings st ! idx))))
                  (movies st)))"
proof -
  define b where "b = bookings st ! idx"
  from findIndex_Some[OF assms] have id: "b_id b = ident" by (simp add: b_def)
  have r: "fst (delete_bookings ident st) = Canceled ident"
    using assms id by (simp add: delete_bookings_def Let_def b_def split: option.splits)
  have l: "bookings (snd (delete_bookings ident st)) = splice1 idx (bookings st)"
    using assms by (simp add: delete_bookings_def Let_def split: option.splits)
  have m: "movies (snd (delete_bookings ident st)) =
     (case find (\<lambda>mm. movie_id mm = movieId b) (movies st) of
        None \<Rightarrow> movies st
      | Some m \<Rightarrow>
         (case find (\<lambda>x. st_id x = showtimeId b) (showtimes m) of
            None \<Rightarrow> movies st
          | Some s \<Rightarrow> updFirst (\<lambda>mm. movie_id mm = movieId b)
                (markShowtime ''available'' (showtimeId b) (seats b)) (movies st)))"
    using assms by (simp add: delete_bookings_def Let_def b_def split: option.splits)
  have skip: "updFirst (\<lambda>mm. movie_id mm = movieId b)
                (markShowtime ''available'' (showtimeId b) (seats b)) (movies st) =
              updFirst (\<lambda>mm. movie_id mm = movieId b)
                (markShowtime ''available'' (showtimeId b)
                   (filter (\<lambda>x. find (\<lambda>z. seat_id z = x) (st_seats s) \<noteq> None) (seats b)))
                (movies st)"
    if fm: "find (\<lambda>mm. movie_id mm = movieId b) (movies st) = Some m"
      and fs: "find (\<lambda>x. st_id x = showtimeId b) (showtimes m) = Some s" for m s
  proof (rule updFirst_cong_found[OF fm])
    have "updFirst (\<lambda>x. st_id x = showtimeId b)
            (\<lambda>s. s\<lparr>st_seats := markSeats ''available'' (seats b) (st_seats s)\<rparr>) (showtimes m) =
          updFirst (\<lambda>x. st_id x = showtimeId b)
            (\<lambda>s'. s'\<lparr>st_seats := markSeats ''available''
                 (filter (\<lambda>x. find (\<lambda>z. seat_id z = x) (st_seats s) \<noteq> None) (seats b))
                 (st_seats s')\<rparr>) (showtimes m)"
      by (rule updFirst_cong_found[OF fs])
         (use markSeats_skip_missing[of "''available''" "seats b" "st_seats s"] in simp)
    then show "markShowtime ''available'' (showtimeId b) (seats b) m =
       markShowtime ''available'' (showtimeId b)
         (filter (\<lambda>x. find (\<lambda>z. seat_id z = x) (st_seats s) \<noteq> None) (seats b)) m"
      by (simp add: markShowtime_def)
  qed
  from r l m skip show ?thesis
    unfolding b_def[symmetric] by (simp split: option.splits)
qed

text \<open>A booking whose movie is gone from movies.json is cancelled all the same.\<close>

lemma cancel_first_match_example:
  "fst (delete_bookings ''b5'' drifted) = Canceled ''b5'' \<and>
   bookings (snd (delete_bookings ''b5'' drifted)) = [] \<and>
   movies (snd (delete_bookings ''b5'' drifted)) = movies drifted"
  by (simp add: delete_bookings_def drifted_def splice1_def)

lemma findIndex_first:
  "i < length xs \<Longrightarrow> P (xs ! i) \<Longrightarrow> \<forall>j<i. \<not> P (xs ! j) \<Longrightarrow> findIndex P xs = Some i"
proof (induction xs arbitrary: i)
  case Nil
  then show ?case by simp
next
  case (Cons x xs)
  show ?case
  proof (cases i)
    case 0
    with Cons.prems show ?thesis by simp
  next
    case (Suc k)
    with Cons.prems have "\<not> P x" by auto
    moreover from Suc Cons.prems have "findIndex P xs = Some k"
      by (intro Cons.IH) auto
    ultimately show ?thesis using Suc by simp
  qed
qed

text \<open>
  A ledger entry that no earlier entry shares its id with is cancelled by its id, with no
  condition on the catalog: the answer is 200, the ledger loses that entry and keeps the
  others in order, and movies.json is as it was when the movie or the showtime is not found.
\<close>

lemma cancel_tolerates_drift_first_with_id:
  assumes "idx < length (bookings st)"
    and "\<forall>j<idx. b_id (bookings st ! j) \<noteq> b_id (bookings st ! idx)"
  shows "fst (delete_bookings (b_id (bookings st ! idx)) st) = Canceled (b_id (bookings st ! idx))"
    and "bookings (snd (delete_bookings (b_id (bookings st ! idx)) st)) =
           take idx (bookings st) @ drop (Suc idx) (bookings st)"
    and "find (\<lambda>mm. movie_id mm = movieId (bookings st ! idx)) (movies st) = None \<Longrightarrow>
           movies (snd (delete_bookings (b_id (bookings st ! idx)) st)) = movies st"
    and "find (\<lambda>mm. movie_id mm = movieId (bookings st ! idx)) (movies st) = Some m \<Longrightarrow>
         find (\<lambda>x. st_id x = showtimeId (bookings st ! idx)) (showtimes m) = None \<Longrightarrow>
           movies (snd (delete_bookings (b_id (bookings st ! idx)) st)) = movies st"
proof -
  have f: "findIndex (\<lambda>b. b_id b = b_id (bookings st ! idx)) (bookings st) = Some idx"
    using assms by (intro findIndex_first) auto
  from cancel_first_match [OF f]
  show "fst (delete_bookings (b_id (bookings st ! idx)) st) = Canceled (b_id (bookings st ! idx))"
    and "bookings (snd (delete_bookings (b_id (bookings st ! idx)) st)) =
           take idx (bookings st) @ drop (Suc idx) (bookings st)"
    by (simp_all add: splice1_def)
  show "movies (snd (delete_bookings (b_id (bookings st ! idx)) st)) = movies st"
    if "find (\<lambda>mm. movie_id mm = movieId (bookings st ! idx)) (movies st) = None"
    using cancel_first_match [OF f] that by simp
  show "movies (snd (delete_bookings (b_id (bookings st ! idx)) st)) = movies st"
    if "find (\<lambda>mm. movie_id mm = movieId (bookings st ! idx)) (movies st) = Some m"
      and "find (\<lambda>x. st_id x = showtimeId (bookings st ! idx)) (showtimes m) = None"
    using cancel_first_match [OF f] that by simp
qed


section \<open>What a successful booking changes\<close>



section \<open>No double booking\<close>

text \<open>The invariant holds at startup and is kept by every request.\<close>

lemma sorted_wrt_compat_nth:
  assumes "sorted_wrt compat bs" "i < length bs" "j < length bs" "i \<noteq> j"
  shows "compat (bs ! i) (bs ! j)"
proof (cases "i < j")
  case True
  with assms show ?thesis by (simp add: sorted_wrt_iff_nth_less)
next
  case False
  with assms have "j < i" by simp
  with assms have "compat (bs ! j) (bs ! i)" by (simp add: sorted_wrt_iff_nth_less)
  then show ?thesis by (auto simp: compat_def)
qed

lemma consistent_post:
  assumes c: "consistent st"
  shows "consistent (snd (post_bookings now rq st))"
proof (cases "\<exists>b. fst (post_bookings now rq st) = Booked b")
  case False
  with post_cases[of now rq st] have "snd (post_bookings now rq st) = st" by blast
  with c show ?thesis by simp
next
  case True
  then obtain b where b: "fst (post_bookings now rq st) = Booked b" by blast
  define sid where "sid = showtimeId b"
  define S where "S = seats b"
  define ms where "ms = movies st"
  define ms' where "ms' = updFirst (hasShowtime sid) (markShowtime ''booked'' sid S) ms"
  from post_success[OF b] obtain m s where
    f: "findShowtime ms sid = Some (m, s)" and
    u: "unavailable s S = []" and
    mid: "movieId b = movie_id m" and
    st': "snd (post_bookings now rq st) = \<lparr>movies = ms', bookings = bookings st @ [b]\<rparr>"
    unfolding sid_def S_def ms_def ms'_def by blast
  from u have avail: "\<And>x. x \<in> set S \<Longrightarrow> statusAt ms sid x = Some ''available''"
    by (simp add: unavailable_Nil statusAt_resolved[OF f])
  from c have d: "distinct (map movie_id ms)"
    and old: "\<And>c. c \<in> set (bookings st) \<Longrightarrow>
           movieIdAt ms (showtimeId c) = Some (movieId c) \<and>
           (\<forall>x\<in>set (seats c). \<exists>v. statusAt ms (showtimeId c) x = Some v \<and> v \<noteq> ''available'')"
    and sw: "sorted_wrt compat (bookings st)"
    unfolding consistent_def ms_def by auto
  have 1: "distinct (map movie_id ms')"
    using d by (simp add: ms'_def map_movie_id_book)
  have st_new: "\<And>sid' x. statusAt ms' sid' x =
      (if sid' = sid \<and> x \<in> set S \<and> statusAt ms sid x \<noteq> None then Some ''booked''
       else statusAt ms sid' x)"
    unfolding ms'_def by (rule statusAt_book)
  have mi_new: "\<And>sid'. movieIdAt ms' sid' = movieIdAt ms sid'"
    unfolding ms'_def by (rule movieIdAt_book)
  have 2: "movieIdAt ms' (showtimeId c) = Some (movieId c) \<and>
           (\<forall>x\<in>set (seats c). \<exists>v. statusAt ms' (showtimeId c) x = Some v \<and> v \<noteq> ''available'')"
    if "c \<in> set (bookings st @ [b])" for c
  proof (cases "c = b")
    case True
    have "movieIdAt ms sid = Some (movieId b)"
      using f mid by (simp add: movieIdAt_def)
    moreover have "statusAt ms' sid x = Some ''booked''" if "x \<in> set S" for x
      using avail[OF that] that by (simp add: st_new)
    ultimately show ?thesis
      using True by (simp add: mi_new sid_def[symmetric] S_def[symmetric])
  next
    case False
    with that have "c \<in> set (bookings st)" by simp
    from old[OF this] show ?thesis
      by (auto simp: mi_new st_new)
  qed
  have "compat c b" if "c \<in> set (bookings st)" for c
  proof -
    have "x \<notin> set S" if "showtimeId c = sid" "x \<in> set (seats c)" for x
    proof
      assume "x \<in> set S"
      from avail[OF this] old[OF \<open>c \<in> set (bookings st)\<close>] that show False by auto
    qed
    then show ?thesis
      by (auto simp: compat_def sid_def[symmetric] S_def[symmetric])
  qed
  with sw have 3: "sorted_wrt compat (bookings st @ [b])"
    by (simp add: sorted_wrt_append)
  from 1 2 3 show ?thesis
    unfolding consistent_def st' by simp
qed

lemma consistent_delete:
  assumes c: "consistent st"
  shows "consistent (snd (delete_bookings ident st))"
proof (cases "findIndex (\<lambda>b. b_id b = ident) (bookings st)")
  case None
  with c show ?thesis by (simp add: delete_not_found)
next
  case (Some idx)
  define bs where "bs = bookings st"
  define b where "b = bs ! idx"
  define sid where "sid = showtimeId b"
  define S where "S = seats b"
  define ms where "ms = movies st"
  define ms' where "ms' = updFirst (hasShowtime sid) (markShowtime ''available'' sid S) ms"
  from Some have idx: "idx < length bs"
    unfolding bs_def by (simp add: findIndex_Some)
  then have bin: "b \<in> set bs" by (simp add: b_def)
  from c have d: "distinct (map movie_id ms)"
    and old: "\<And>c. c \<in> set bs \<Longrightarrow>
           movieIdAt ms (showtimeId c) = Some (movieId c) \<and>
           (\<forall>x\<in>set (seats c). \<exists>v. statusAt ms (showtimeId c) x = Some v \<and> v \<noteq> ''available'')"
    and sw: "sorted_wrt compat bs"
    unfolding consistent_def ms_def bs_def by auto
  from old[OF bin] obtain m s where
    f: "findShowtime ms sid = Some (m, s)" and mid: "movie_id m = movieId b"
    unfolding sid_def movieIdAt_def by auto
  from find_by_movie_id[OF f d] mid
  have fm: "find (\<lambda>mm. movie_id mm = movieId b) ms = Some m" by simp
  from findShowtime_Some[OF f]
  have fh: "find (hasShowtime sid) ms = Some m"
    and fs: "find (\<lambda>x. st_id x = sid) (showtimes m) = Some s" by simp_all
  have upd: "updFirst (\<lambda>mm. movie_id mm = movieId b) (markShowtime ''available'' sid S) ms = ms'"
    unfolding ms'_def
    by (rule updFirst_cong_first[OF fh fm d]) (simp add: mid)
  have st': "snd (delete_bookings ident st) = \<lparr>movies = ms', bookings = splice1 idx bs\<rparr>"
    using Some fm fs upd
    by (simp add: delete_bookings_def Let_def bs_def[symmetric] b_def[symmetric]
        ms_def[symmetric] sid_def[symmetric] S_def[symmetric])
  have 1: "distinct (map movie_id ms')"
    using d by (simp add: ms'_def map_movie_id_book)
  have st_new: "\<And>sid' x. statusAt ms' sid' x =
      (if sid' = sid \<and> x \<in> set S \<and> statusAt ms sid x \<noteq> None then Some ''available''
       else statusAt ms sid' x)"
    unfolding ms'_def by (rule statusAt_book)
  have mi_new: "\<And>sid'. movieIdAt ms' sid' = movieIdAt ms sid'"
    unfolding ms'_def by (rule movieIdAt_book)
  have 2: "movieIdAt ms' (showtimeId c) = Some (movieId c) \<and>
           (\<forall>x\<in>set (seats c). \<exists>v. statusAt ms' (showtimeId c) x = Some v \<and> v \<noteq> ''available'')"
    if "c \<in> set (splice1 idx bs)" for c
  proof -
    from in_splice1[OF that] obtain j where j: "j < length bs" "j \<noteq> idx" "bs ! j = c" by blast
    then have cin: "c \<in> set bs" by auto
    from sorted_wrt_compat_nth[OF sw j(1) idx j(2)] j(3)
    have "compat c b" by (simp add: b_def)
    then have "x \<notin> set S" if "showtimeId c = sid" "x \<in> set (seats c)" for x
      using that by (auto simp: compat_def sid_def S_def)
    with old[OF cin] show ?thesis
      by (auto simp: mi_new st_new)
  qed
  from sw have 3: "sorted_wrt compat (splice1 idx bs)" by (rule sorted_wrt_splice1)
  from 1 2 3 show ?thesis
    unfolding consistent_def st' by simp
qed

lemma consistent_run: "consistent st \<Longrightarrow> consistent (run rs st)"
proof (induction rs arbitrary: st)
  case Nil
  then show ?case by simp
next
  case (Cons r rs)
  have "consistent (step r st)"
    using Cons.prems by (cases r) (simp_all add: consistent_post consistent_delete)
  then show ?case by (simp add: Cons.IH)
qed

lemma consistent_ensureFiles: "consistent (ensureFiles t)"
  by (simp add: consistent_def ensureFiles_def)

text \<open>
  In every state, a request that overlaps a booking just made for the same showtime is
  answered 409, with the common seat in the reported list.
\<close>

lemma overlapping_create_rejected:
  assumes ok: "fst (post_bookings now rq st) = Booked b"
    and rq2: "\<not> falsyValue (req_customerName rq2)" "req_showtimeId rq2 = Some (showtimeId b)"
             "req_seats rq2 = Some S2"
    and x: "x \<in> set (seats b)" "x \<in> set S2"
  shows "\<exists>u. fst (post_bookings now2 rq2 (snd (post_bookings now rq st))) = SeatsUnavailable u \<and> x \<in> set u"
proof -
  define sid where "sid = showtimeId b"
  define S where "S = seats b"
  define ms where "ms = movies st"
  define ms1 where "ms1 = updFirst (hasShowtime sid) (markShowtime ''booked'' sid S) ms"
  from post_success[OF ok] obtain m s where
    f: "findShowtime ms sid = Some (m, s)" and
    u: "unavailable s S = []" and
    rq: "req_showtimeId rq = Some sid" and
    st1: "snd (post_bookings now rq st) = \<lparr>movies = ms1, bookings = bookings st @ [b]\<rparr>"
    unfolding sid_def S_def ms_def ms1_def by blast
  from ok have nf: "\<not> falsy (req_showtimeId rq)" using post_booked_iff[of now rq st] by blast
  from u x have "statusAt ms sid x = Some ''available''"
    by (simp add: unavailable_Nil statusAt_resolved[OF f] S_def)
  with x have b1: "statusAt ms1 sid x = Some ''booked''"
    by (simp add: ms1_def statusAt_book S_def)
  then obtain m1 s1 where f1: "findShowtime ms1 sid = Some (m1, s1)"
    by (auto simp: statusAt_def split: option.splits)
  with b1 have "statusIn (st_seats s1) x = Some ''booked''"
    by (simp add: statusAt_def)
  with x have "x \<in> set (unavailable s1 S2)"
    by (auto simp: unavailable_def statusIn_def split: option.splits)
  moreover from this have ne: "unavailable s1 S2 \<noteq> []" by auto
  moreover have "fst (post_bookings now2 rq2 st1) = SeatsUnavailable (unavailable s1 S2)"
    if "movies st1 = ms1" for st1
    using that rq2 rq nf f1 ne
    by (simp add: post_bookings_def Let_def sid_def[symmetric] falsy_def)
  ultimately show ?thesis
    by (simp add: st1)
qed

text \<open>
  C1. After any sequence of POST /api/bookings and DELETE /api/bookings/:id requests,
  served one after the other from the seeded state, two bookings at different positions of
  the ledger that are for the same showtime have no seat id in common.
\<close>

theorem no_double_booking:
  assumes "i < length (bookings (run rs (ensureFiles t)))"
    and "j < length (bookings (run rs (ensureFiles t)))"
    and "i \<noteq> j"
    and "showtimeId (bookings (run rs (ensureFiles t)) ! i) = showtimeId (bookings (run rs (ensureFiles t)) ! j)"
  shows "set (seats (bookings (run rs (ensureFiles t)) ! i)) \<inter> set (seats (bookings (run rs (ensureFiles t)) ! j)) = {}"
proof -
  have "consistent (run rs (ensureFiles t))"
    by (rule consistent_run) (rule consistent_ensureFiles)
  then have "sorted_wrt compat (bookings (run rs (ensureFiles t)))"
    by (simp add: consistent_def)
  from sorted_wrt_compat_nth[OF this assms(1,2,3)] assms(4) show ?thesis
    by (simp add: compat_def)
qed

text \<open>Alice books A1 and A2, Bob is refused A2 and A3, Carol books A3 and A4.\<close>

theorem no_double_booking_witness:
  "length (bookings (run [Create 5 alice, Create 6 bob, Create 7 carol] (ensureFiles ''t''))) = 2 \<and>
   showtimeId (bookings (run [Create 5 alice, Create 6 bob, Create 7 carol] (ensureFiles ''t'')) ! 0) =
   showtimeId (bookings (run [Create 5 alice, Create 6 bob, Create 7 carol] (ensureFiles ''t'')) ! 1) \<and>
   set (seats (bookings (run [Create 5 alice, Create 6 bob, Create 7 carol] (ensureFiles ''t'')) ! 0)) \<inter>
   set (seats (bookings (run [Create 5 alice, Create 6 bob, Create 7 carol] (ensureFiles ''t'')) ! 1)) = {}"
proof -
  let ?bs = "bookings (run [Create 5 alice, Create 6 bob, Create 7 carol] (ensureFiles ''t''))"
  have l: "length ?bs = 2" by code_simp
  then have h1: "0 < length ?bs" and h2: "1 < length ?bs" by simp_all
  have h3: "(0::nat) \<noteq> 1" by simp
  have h4: "showtimeId (?bs ! 0) = showtimeId (?bs ! 1)" by code_simp
  from no_double_booking [OF h1 h2 h3 h4] l h4 show ?thesis by simp
qed

section \<open>Cancellation round trip\<close>

text \<open>
  When the id of the new booking is not the id of an earlier ledger entry (and movie ids are
  distinct), cancelling by the returned id removes that booking, frees its seats, and the
  same request succeeds again.
\<close>

lemma roundtrip_when_id_fresh:
  assumes d: "distinct (map movie_id (movies st))"
    and fresh: "\<forall>c\<in>set (bookings st). b_id c \<noteq> ''b'' @ string_of_nat now"
    and ok: "fst (post_bookings now rq st) = Booked b"
  shows "fst (delete_bookings (b_id b) (snd (post_bookings now rq st))) = Canceled (b_id b) \<and>
     bookings (snd (delete_bookings (b_id b) (snd (post_bookings now rq st)))) = bookings st \<and>
     (\<forall>x\<in>set (seats b).
        statusAt (movies (snd (delete_bookings (b_id b) (snd (post_bookings now rq st)))))
          (showtimeId b) x = Some ''available'') \<and>
     (\<exists>b'. fst (post_bookings now' rq (snd (delete_bookings (b_id b) (snd (post_bookings now rq st))))) = Booked b')"
proof -
  define sid where "sid = showtimeId b"
  define S where "S = seats b"
  define ms where "ms = movies st"
  define ms1 where "ms1 = updFirst (hasShowtime sid) (markShowtime ''booked'' sid S) ms"
  define ms2 where "ms2 = updFirst (hasShowtime sid) (markShowtime ''available'' sid S) ms1"
  define st1 where "st1 = snd (post_bookings now rq st)"
  define st2 where "st2 = snd (delete_bookings (b_id b) st1)"
  from post_success[OF ok] obtain m s where
    f: "findShowtime ms sid = Some (m, s)" and
    u: "unavailable s S = []" and
    mid: "movieId b = movie_id m" and
    bid: "b_id b = ''b'' @ string_of_nat now" and
    rq: "req_showtimeId rq = Some sid" "req_seats rq = Some S" and
    st1: "st1 = \<lparr>movies = ms1, bookings = bookings st @ [b]\<rparr>"
    unfolding sid_def S_def ms_def ms1_def st1_def by blast
  from u have avail: "\<And>x. x \<in> set S \<Longrightarrow> statusAt ms sid x = Some ''available''"
    by (simp add: unavailable_Nil statusAt_resolved[OF f])
  have idx: "findIndex (\<lambda>c. b_id c = b_id b) (bookings st1) = Some (length (bookings st))"
    using fresh bid by (simp add: st1 findIndex_append_last)
  have d1: "distinct (map movie_id ms1)"
    using d by (simp add: ms1_def ms_def map_movie_id_book)
  have "movieIdAt ms1 sid = Some (movieId b)"
    using f mid by (simp add: ms1_def movieIdAt_book) (simp add: movieIdAt_def)
  then obtain m1 s1 where
    f1: "findShowtime ms1 sid = Some (m1, s1)" and mid1: "movie_id m1 = movieId b"
    by (auto simp: movieIdAt_def)
  from find_by_movie_id[OF f1 d1] mid1
  have fm: "find (\<lambda>mm. movie_id mm = movieId b) ms1 = Some m1" by simp
  from findShowtime_Some[OF f1]
  have fh: "find (hasShowtime sid) ms1 = Some m1"
    and fs: "find (\<lambda>x. st_id x = sid) (showtimes m1) = Some s1" by simp_all
  have upd: "updFirst (\<lambda>mm. movie_id mm = movieId b) (markShowtime ''available'' sid S) ms1 = ms2"
    unfolding ms2_def
    by (rule updFirst_cong_first[OF fh fm d1]) (simp add: mid1)
  have del: "delete_bookings (b_id b) st1 =
      (Canceled (b_id b), \<lparr>movies = ms2, bookings = bookings st\<rparr>)"
    using idx fm fs upd
    by (simp add: delete_bookings_def Let_def st1 splice1_append_last sid_def[symmetric] S_def[symmetric])
  then have st2: "st2 = \<lparr>movies = ms2, bookings = bookings st\<rparr>"
    by (simp add: st2_def)
  have s2: "statusAt ms2 sid x = Some ''available''" if "x \<in> set S" for x
    using avail[OF that] that by (simp add: ms2_def ms1_def statusAt_book)
  have "movieIdAt ms2 sid = Some (movieId b)"
    using f mid by (simp add: ms2_def ms1_def movieIdAt_book) (simp add: movieIdAt_def)
  then obtain m2 s2' where f2: "findShowtime ms2 sid = Some (m2, s2')"
    by (auto simp: movieIdAt_def)
  from s2 have "unavailable s2' S = []"
    by (simp add: unavailable_Nil statusAt_resolved[OF f2, symmetric])
  moreover from post_success[OF ok] have "\<not> falsyValue (req_customerName rq)" "\<not> falsy (req_showtimeId rq)"
    using post_booked_iff[of now rq st] ok by blast+
  ultimately have again: "\<exists>b'. fst (post_bookings now' rq st2) = Booked b'"
    using f2 rq by (simp add: post_booked_iff st2)
  from del s2 again show ?thesis
    unfolding st1_def[symmetric] st2_def[symmetric]
    by (simp add: st2 sid_def[symmetric] S_def[symmetric])
qed

text \<open>
  The states reached when Alice's and Carol's requests are served at the same clock reading
  \<open>now\<close> and the id returned to Carol is then cancelled.
\<close>

lemma same_instant_create:
  "fst (post_bookings now carol (snd (post_bookings now alice seeded))) =
     Booked \<lparr>b_id = ''b'' @ string_of_nat now, customerName = JString ''Carol'', movieId = ''m1'',
             showtimeId = ''s1'', seats = [''A3'', ''A4'']\<rparr>"
  by code_simp

lemma same_instant_cancel:
  "fst (delete_bookings (''b'' @ string_of_nat now)
          (run [Create now alice, Create now carol] seeded)) =
     Canceled (''b'' @ string_of_nat now)"
  by code_simp

lemma same_instant_cancelled_ledger:
  "bookings (run [Create now alice, Create now carol, Cancel (''b'' @ string_of_nat now)] seeded) =
     [\<lparr>b_id = ''b'' @ string_of_nat now, customerName = JString ''Carol'', movieId = ''m1'',
       showtimeId = ''s1'', seats = [''A3'', ''A4'']\<rparr>]"
  by code_simp

lemma same_instant_seats:
  "map (statusAt (movies (run [Create now alice, Create now carol,
                               Cancel (''b'' @ string_of_nat now)] seeded)) ''s1'')
     [''A1'', ''A2'', ''A3'', ''A4''] =
   [Some ''available'', Some ''available'', Some ''booked'', Some ''booked'']"
  by code_simp

lemma same_instant_again:
  "fst (post_bookings now' carol
          (run [Create now alice, Create now carol, Cancel (''b'' @ string_of_nat now)] seeded)) =
     SeatsUnavailable [''A3'', ''A4'']"
  by code_simp

text \<open>
  C4. Alice's request for A1, A2 and Carol's request for A3, A4 are served at the same clock
  reading, so the booking returned to Carol has the id of Alice's. Cancelling the id
  returned to Carol answers 200 but removes Alice's booking and frees A1 and A2; A3 and
  A4 stay booked, Carol's booking stays in the ledger, and Carol's request, sent again, is
  answered 409.
\<close>

theorem roundtrip_fails_on_repeated_id:
  "fst (post_bookings 1700000000000 carol (snd (post_bookings 1700000000000 alice seeded))) =
     Booked \<lparr>b_id = ''b1700000000000'', customerName = JString ''Carol'', movieId = ''m1'',
             showtimeId = ''s1'', seats = [''A3'', ''A4'']\<rparr> \<and>
   fst (delete_bookings ''b1700000000000'' (run sameInstant seeded)) = Canceled ''b1700000000000'' \<and>
   bookings (run thenCancel seeded) =
     [\<lparr>b_id = ''b1700000000000'', customerName = JString ''Carol'', movieId = ''m1'',
       showtimeId = ''s1'', seats = [''A3'', ''A4'']\<rparr>] \<and>
   map (statusAt (movies (run thenCancel seeded)) ''s1'') [''A1'', ''A2'', ''A3'', ''A4''] =
     [Some ''available'', Some ''available'', Some ''booked'', Some ''booked''] \<and>
   fst (post_bookings 1700000000001 carol (run thenCancel seeded)) =
     SeatsUnavailable [''A3'', ''A4'']"
  using same_instant_create [of 1700000000000] same_instant_cancel [of 1700000000000]
    same_instant_cancelled_ledger [of 1700000000000] same_instant_seats [of 1700000000000]
    same_instant_again [of 1700000000001 1700000000000] string_of_clock
  by (simp add: sameInstant_def thenCancel_def)

end
